theory Spec2Isabelle
  imports Complex_Main "HOL-Library.AList"
begin

section \<open>ZVault Python SDK client (sdks/python/zvault/client.py)\<close>

text \<open>
  A shallow embedding of the class \<open>ZVault\<close>. The immutable fields of a client are a
  record \<open>config\<close>; everything a call can change (the cache, the last-refresh stamp, the
  process environment, the two clocks, the random draws consumed and the trace of requests
  and sleeps) is a record \<open>state\<close> that every operation takes and returns; the outside
  (the service behind httpx and the random generator) is a record \<open>world\<close>. An exception
  is the \<open>Inl\<close> branch of a sum.

  Conventions of the embedding:
  \<^item> times are real numbers (the source uses floats); computing takes no time, so the
    clocks move only while a request is in flight or the client sleeps;
  \<^item> \<open>_log\<close> only prints when \<open>debug\<close> is set and is left out;
  \<^item> a Python \<open>dict\<close> is an association list with distinct keys, in insertion order,
    updated by \<open>AList.update\<close> (replace in place, or append); a dict is a value here,
    so the mapping a successful \<open>get_all\<close> returns, which in Python is the very object
    the cache keeps, is returned as it is at that moment;
  \<^item> \<open>os.environ\<close> is a mapping from names to values whose assignment raises
    ValueError on an illegal name or value, as CPython does on POSIX.
\<close>

subsection \<open>JSON values and the Python accessors the client applies to them\<close>

datatype json =
    JNull
  | JBool bool
  | JNum int
  | JStr string
  | JArr "json list"
  | JObj "(string \<times> json) list"

text \<open>The message of an error: a literal of the source, the value found in the error
  body, or the f-string \<open>HTTP <status>\<close>.\<close>

datatype message = Literal string | FromBody json | HttpStatus int

text \<open>zvault/errors.py; \<open>PyException\<close> stands for every exception that is not a
  \<open>ZVaultError\<close> (KeyError, TypeError, AttributeError, JSONDecodeError, ...), by the name
  of its class.\<close>

datatype error =
    ZVaultAPIError int message
  | ZVaultConfigError string
  | ZVaultNotFoundError string string
  | ZVaultAuthError message
  | ZVaultTimeoutError string
  | PyException string

text \<open>\<open>x.get(k, default)\<close>: only a dict has the method.\<close>

fun dict_get :: "json \<Rightarrow> string \<Rightarrow> json \<Rightarrow> error + json" where
  "dict_get (JObj kvs) k dflt = Inr (case map_of kvs k of Some v \<Rightarrow> v | None \<Rightarrow> dflt)"
| "dict_get _ k dflt = Inl (PyException ''AttributeError'')"

text \<open>\<open>x[k]\<close> with a string \<open>k\<close>: KeyError on a dict without the key, TypeError on
  anything that is not a dict.\<close>

fun subscript :: "json \<Rightarrow> string \<Rightarrow> error + json" where
  "subscript (JObj kvs) k =
     (case map_of kvs k of Some v \<Rightarrow> Inr v | None \<Rightarrow> Inl (PyException ''KeyError''))"
| "subscript _ k = Inl (PyException ''TypeError'')"

text \<open>\<open>for k in x\<close>: a list yields its elements, a dict its keys, a string its
  characters; anything else is not iterable.\<close>

fun iterate :: "json \<Rightarrow> error + json list" where
  "iterate (JArr xs) = Inr xs"
| "iterate (JObj kvs) = Inr (map (\<lambda>kv. JStr (fst kv)) kvs)"
| "iterate (JStr s) = Inr (map (\<lambda>c. JStr [c]) s)"
| "iterate _ = Inl (PyException ''TypeError'')"

text \<open>Where the source declares a \<open>str\<close> (a secret's key and value, the argument of
  \<open>quote\<close>), the embedding takes a JSON string and raises TypeError on anything else.
  \<open>quote\<close> does raise it; for the key and value of a secret Python would store the
  ill-typed value, which the declared type \<open>dict[str, str]\<close> excludes.\<close>

fun as_str :: "json \<Rightarrow> error + string" where
  "as_str (JStr s) = Inr s"
| "as_str _ = Inl (PyException ''TypeError'')"

subsection \<open>urllib.parse.quote with \<open>safe=''\<close>\<close>

definition unreserved :: "char \<Rightarrow> bool" where
  "unreserved c \<longleftrightarrow>
     c \<in> set ''ABCDEFGHIJKLMNOPQRSTUVWXYZabcdefghijklmnopqrstuvwxyz0123456789_.-~''"

definition hex_digit :: "nat \<Rightarrow> char" where
  "hex_digit n = ''0123456789ABCDEF'' ! (n mod 16)"

definition quote_char :: "char \<Rightarrow> string" where
  "quote_char c =
     (if unreserved c then [c]
      else [CHR ''%'', hex_digit (of_char c div 16), hex_digit (of_char c mod 16)])"

definition quote :: "string \<Rightarrow> string" where
  "quote s = concat (map quote_char s)"

subsection \<open>Client, state and world\<close>

record config =
  token :: string
  base_url :: string
  org_id :: string
  project_id :: string
  default_env :: string
  cache_ttl :: real
  max_retries :: int

record cache_entry =
  secrets :: "(string \<times> string) list"
  expires_at :: real

record http_request =
  http_method :: string
  url :: string
  payload :: "json option"

datatype event = Request http_request | Sleep real

text \<open>\<open>monotonic\<close> is \<open>time.monotonic()\<close>, \<open>wall\<close> is \<open>time.time()\<close>, \<open>environ\<close> is
  \<open>os.environ\<close>, \<open>draws\<close> counts the calls of \<open>random.random()\<close>, and \<open>trace\<close> records
  every HTTP attempt and every sleep in the order they happen.\<close>

record state =
  cache :: "(string \<times> cache_entry) list"
  last_refresh :: "real option"
  environ :: "string \<rightharpoonup> string"
  monotonic :: real
  wall :: real
  draws :: nat
  trace :: "event list"

text \<open>What one call of \<open>self._client.request\<close> can do: answer with a status and a
  body (\<open>None\<close> when the body is not JSON), or raise \<open>httpx.TimeoutException\<close>, another
  \<open>httpx.HTTPError\<close>, or something else.\<close>

datatype reply =
    Response int "json option"
  | TimeoutException string
  | HTTPError string
  | OtherException string

text \<open>\<open>net w i rq\<close> is the outcome of the \<open>i\<close>-th attempt the client makes (counted
  from 0 over the life of the state) when it sends \<open>rq\<close>, with the time the attempt takes;
  \<open>rnd w n\<close> is the \<open>n\<close>-th value of \<open>random.random()\<close>.\<close>

record world =
  net :: "nat \<Rightarrow> http_request \<Rightarrow> reply \<times> real"
  rnd :: "nat \<Rightarrow> real"

fun is_request :: "event \<Rightarrow> bool" where
  "is_request (Request _) = True"
| "is_request (Sleep _) = False"

definition requests_sent :: "state \<Rightarrow> nat" where
  "requests_sent st = length (filter is_request (trace st))"

definition elapse :: "real \<Rightarrow> state \<Rightarrow> state" where
  "elapse d st = st\<lparr>monotonic := monotonic st + d, wall := wall st + d\<rparr>"

definition send :: "world \<Rightarrow> http_request \<Rightarrow> state \<Rightarrow> reply \<times> state" where
  "send w rq st =
     (case net w (requests_sent st) rq of
        (rep, d) \<Rightarrow> (rep, elapse d (st\<lparr>trace := trace st @ [Request rq]\<rparr>)))"

subsection \<open>Transport: \<open>_sleep_with_jitter\<close> and \<open>_request\<close>\<close>

definition RETRY_BASE_DELAY :: real where
  "RETRY_BASE_DELAY = 1 / 2"

definition jittered :: "world \<Rightarrow> nat \<Rightarrow> nat \<Rightarrow> real" where
  "jittered w n attempt =
     (let delay = RETRY_BASE_DELAY * 2 ^ attempt;
          jitter = rnd w n * delay * (3 / 10)
      in delay + jitter)"

definition sleep_with_jitter :: "world \<Rightarrow> nat \<Rightarrow> state \<Rightarrow> state" where
  "sleep_with_jitter w attempt st =
     (let d = jittered w (draws st) attempt
      in elapse d (st\<lparr>draws := Suc (draws st), trace := trace st @ [Sleep d]\<rparr>))"

definition is_success :: "int \<Rightarrow> bool" where
  "is_success code \<longleftrightarrow> 200 \<le> code \<and> code \<le> 299"

definition retryable :: "int \<Rightarrow> bool" where
  "retryable code \<longleftrightarrow> code \<in> {429, 500, 502, 503, 504}"

text \<open>\<open>body.get("error", {}).get("message", f"HTTP {status}")\<close>, with any exception
  replaced by the f-string.\<close>

definition error_message :: "int \<Rightarrow> json option \<Rightarrow> message" where
  "error_message code body =
     (case body of
        None \<Rightarrow> HttpStatus code
      | Some b \<Rightarrow>
          (case dict_get b ''error'' (JObj []) of
             Inl _ \<Rightarrow> HttpStatus code
           | Inr e \<Rightarrow>
               (case e of
                  JObj kvs \<Rightarrow>
                    (case map_of kvs ''message'' of
                       Some m \<Rightarrow> FromBody m
                     | None \<Rightarrow> HttpStatus code)
                | _ \<Rightarrow> HttpStatus code)))"

text \<open>
  The loop of \<open>_request\<close> over \<open>range(max_retries + 1)\<close>, as recursion over the list of the
  remaining attempt numbers. Every \<open>raise\<close> of a \<open>ZVaultAPIError\<close> inside the \<open>try\<close> (the
  one for 404 and \<open>raise last_err\<close>) is caught by \<open>except ZVaultAPIError\<close> of the same
  \<open>try\<close>, which re-raises on the last attempt and otherwise continues without sleeping;
  \<open>ZVaultAuthError\<close> is re-raised at once; a JSON decoding error of a successful response
  and any exception that is not an \<open>httpx.HTTPError\<close> match no handler.
\<close>

fun attempts ::
  "config \<Rightarrow> world \<Rightarrow> http_request \<Rightarrow> nat list \<Rightarrow> error option \<Rightarrow> state
     \<Rightarrow> (error + json) \<times> state" where
  "attempts cfg w rq [] last_err st =
     (case last_err of
        Some e \<Rightarrow> (Inl e, st)
      | None \<Rightarrow> (Inl (ZVaultAPIError 0 (Literal ''Unknown error'')), st))"
| "attempts cfg w rq (attempt # rest) last_err st =
     (case send w rq st of
        (Response code body, st1) \<Rightarrow>
          if is_success code then
            (if code = 204 then (Inr (JObj []), st1)
             else (case body of
                     Some j \<Rightarrow> (Inr j, st1)
                   | None \<Rightarrow> (Inl (PyException ''JSONDecodeError''), st1)))
          else
            (let msg = error_message code body in
             if code = 401 \<or> code = 403 then (Inl (ZVaultAuthError msg), st1)
             else if code = 404 then
               (if int attempt \<ge> max_retries cfg then (Inl (ZVaultAPIError code msg), st1)
                else attempts cfg w rq rest last_err st1)
             else if int attempt < max_retries cfg \<and> retryable code then
               attempts cfg w rq rest (Some (ZVaultAPIError code msg))
                 (sleep_with_jitter w attempt st1)
             else if int attempt \<ge> max_retries cfg then (Inl (ZVaultAPIError code msg), st1)
             else attempts cfg w rq rest (Some (ZVaultAPIError code msg)) st1)
      | (TimeoutException s, st1) \<Rightarrow>
          if int attempt < max_retries cfg then
            attempts cfg w rq rest (Some (ZVaultTimeoutError s))
              (sleep_with_jitter w attempt st1)
          else (Inl (ZVaultTimeoutError s), st1)
      | (HTTPError s, st1) \<Rightarrow>
          if int attempt < max_retries cfg then
            attempts cfg w rq rest (Some (ZVaultAPIError 0 (Literal s)))
              (sleep_with_jitter w attempt st1)
          else (Inl (ZVaultAPIError 0 (Literal s)), st1)
      | (OtherException s, st1) \<Rightarrow> (Inl (PyException s), st1))"

definition request ::
  "config \<Rightarrow> world \<Rightarrow> string \<Rightarrow> string \<Rightarrow> json option \<Rightarrow> state \<Rightarrow> (error + json) \<times> state" where
  "request cfg w meth path body st =
     attempts cfg w \<lparr>http_method = meth, url = base_url cfg @ ''/v1/cloud'' @ path, payload = body\<rparr>
       [0 ..< nat (max_retries cfg + 1)] None st"

subsection \<open>Private helpers of the client\<close>

text \<open>\<open>env or self._default_env\<close>: \<open>None\<close> and the empty string are both falsy.\<close>

definition resolve_env :: "config \<Rightarrow> string option \<Rightarrow> string" where
  "resolve_env cfg env =
     (case env of
        None \<Rightarrow> default_env cfg
      | Some e \<Rightarrow> if e = [] then default_env cfg else e)"

text \<open>\<open>_require_project_config\<close>: the error it raises, if any.\<close>

definition require_project_config :: "config \<Rightarrow> error option" where
  "require_project_config cfg =
     (if org_id cfg = [] then
        Some (ZVaultConfigError
          ''Missing org_id. Set ZVAULT_ORG_ID env var or pass org_id= argument.'')
      else if project_id cfg = [] then
        Some (ZVaultConfigError
          ''Missing project_id. Set ZVAULT_PROJECT_ID env var or pass project_id= argument.'')
      else None)"

text \<open>An instance of the dataclass \<open>_CacheEntry\<close> is truthy, so \<open>if entry and ...\<close>
  tests only that the entry is there and that its deadline is in the future.\<close>

definition get_cached :: "state \<Rightarrow> string \<Rightarrow> (string \<times> string) list option" where
  "get_cached st env =
     (case map_of (cache st) env of
        Some entry \<Rightarrow> if monotonic st < expires_at entry then Some (secrets entry) else None
      | None \<Rightarrow> None)"

definition get_cached_key :: "state \<Rightarrow> string \<Rightarrow> string \<Rightarrow> string option" where
  "get_cached_key st env key =
     (case map_of (cache st) env of
        Some entry \<Rightarrow>
          if monotonic st < expires_at entry then map_of (secrets entry) key else None
      | None \<Rightarrow> None)"

definition fresh_entry :: "config \<Rightarrow> state \<Rightarrow> (string \<times> string) list \<Rightarrow> cache_entry" where
  "fresh_entry cfg st kvs = \<lparr>secrets = kvs, expires_at = monotonic st + cache_ttl cfg\<rparr>"

definition set_cached_key :: "config \<Rightarrow> string \<Rightarrow> string \<Rightarrow> string \<Rightarrow> state \<Rightarrow> state" where
  "set_cached_key cfg env key val st =
     (case map_of (cache st) env of
        Some entry \<Rightarrow>
          if monotonic st < expires_at entry then
            st\<lparr>cache := AList.update env
                  (entry\<lparr>secrets := AList.update key val (secrets entry)\<rparr>) (cache st)\<rparr>
          else st\<lparr>cache := AList.update env (fresh_entry cfg st [(key, val)]) (cache st)\<rparr>
      | None \<Rightarrow> st\<lparr>cache := AList.update env (fresh_entry cfg st [(key, val)]) (cache st)\<rparr>)"

definition secrets_path :: "config \<Rightarrow> string \<Rightarrow> string" where
  "secrets_path cfg env =
     ''/orgs/'' @ org_id cfg @ ''/projects/'' @ project_id cfg @ ''/envs/'' @ env @ ''/secrets''"

definition key_path :: "config \<Rightarrow> string \<Rightarrow> string \<Rightarrow> string" where
  "key_path cfg env key = secrets_path cfg env @ ''/'' @ quote key"

subsection \<open>\<open>get_all\<close>\<close>

text \<open>The \<open>for k in keys\<close> loop: a \<open>ZVaultAPIError\<close> of one key's request skips the
  key; every other exception leaves the loop.\<close>

fun fetch_each ::
  "config \<Rightarrow> world \<Rightarrow> string \<Rightarrow> json list \<Rightarrow> (string \<times> string) list \<Rightarrow> state
     \<Rightarrow> (error + (string \<times> string) list) \<times> state" where
  "fetch_each cfg w path [] acc st = (Inr acc, st)"
| "fetch_each cfg w path (k # ks) acc st =
     (case subscript k ''key'' of
        Inl e \<Rightarrow> (Inl e, st)
      | Inr kj \<Rightarrow>
     (case as_str kj of
        Inl e \<Rightarrow> (Inl e, st)
      | Inr name \<Rightarrow>
     (case request cfg w ''GET'' (path @ ''/'' @ quote name) None st of
        (Inl (ZVaultAPIError code msg), st1) \<Rightarrow> fetch_each cfg w path ks acc st1
      | (Inl e, st1) \<Rightarrow> (Inl e, st1)
      | (Inr resp, st1) \<Rightarrow>
     (case dict_get resp ''secret'' (JObj []) of
        Inl e \<Rightarrow> (Inl e, st1)
      | Inr secret \<Rightarrow>
     (case subscript secret ''value'' of
        Inl e \<Rightarrow> (Inl e, st1)
      | Inr vj \<Rightarrow>
     (case subscript secret ''key'' of
        Inl e \<Rightarrow> (Inl e, st1)
      | Inr sj \<Rightarrow>
     (case as_str sj of
        Inl e \<Rightarrow> (Inl e, st1)
      | Inr skey \<Rightarrow>
     (case as_str vj of
        Inl e \<Rightarrow> (Inl e, st1)
      | Inr sval \<Rightarrow> fetch_each cfg w path ks (AList.update skey sval acc) st1))))))))"

text \<open>The body of the \<open>try\<close> of \<open>get_all\<close>: the listing, the loop, the cache update.\<close>

definition fetch_all ::
  "config \<Rightarrow> world \<Rightarrow> string \<Rightarrow> state \<Rightarrow> (error + (string \<times> string) list) \<times> state" where
  "fetch_all cfg w env st =
     (case request cfg w ''GET'' (secrets_path cfg env) None st of
        (Inl e, st1) \<Rightarrow> (Inl e, st1)
      | (Inr keys_resp, st1) \<Rightarrow>
     (case dict_get keys_resp ''keys'' (JArr []) of
        Inl e \<Rightarrow> (Inl e, st1)
      | Inr keys \<Rightarrow>
     (case iterate keys of
        Inl e \<Rightarrow> (Inl e, st1)
      | Inr ks \<Rightarrow>
     (case fetch_each cfg w (secrets_path cfg env) ks [] st1 of
        (Inl e, st2) \<Rightarrow> (Inl e, st2)
      | (Inr fetched, st2) \<Rightarrow>
          (Inr fetched,
           st2\<lparr>cache := AList.update env (fresh_entry cfg st2 fetched) (cache st2),
               last_refresh := Some (wall st2)\<rparr>)))))"

definition get_all ::
  "config \<Rightarrow> world \<Rightarrow> string option \<Rightarrow> state \<Rightarrow> (error + (string \<times> string) list) \<times> state" where
  "get_all cfg w env_arg st =
     (let env = resolve_env cfg env_arg in
      case require_project_config cfg of
        Some e \<Rightarrow> (Inl e, st)
      | None \<Rightarrow>
          (case fetch_all cfg w env st of
             (Inr fetched, st1) \<Rightarrow> (Inr fetched, st1)
           | (Inl e, st1) \<Rightarrow>
               (case get_cached st1 env of
                  Some cached \<Rightarrow> (Inr cached, st1)
                | None \<Rightarrow> (Inl e, st1))))"

subsection \<open>\<open>get\<close>, \<open>list_keys\<close>, \<open>set\<close>, \<open>delete\<close>\<close>

definition get ::
  "config \<Rightarrow> world \<Rightarrow> string \<Rightarrow> string option \<Rightarrow> state \<Rightarrow> (error + string) \<times> state" where
  "get cfg w key env_arg st =
     (let env = resolve_env cfg env_arg in
      case require_project_config cfg of
        Some e \<Rightarrow> (Inl e, st)
      | None \<Rightarrow>
          (case get_cached_key st env key of
             Some cached \<Rightarrow> (Inr cached, st)
           | None \<Rightarrow>
               (case request cfg w ''GET'' (key_path cfg env key) None st of
                  (Inl (ZVaultAPIError code msg), st1) \<Rightarrow>
                    if code = 404 then (Inl (ZVaultNotFoundError key env), st1)
                    else (Inl (ZVaultAPIError code msg), st1)
                | (Inl e, st1) \<Rightarrow> (Inl e, st1)
                | (Inr resp, st1) \<Rightarrow>
                    (case subscript resp ''secret'' of
                       Inl e \<Rightarrow> (Inl e, st1)
                     | Inr secret \<Rightarrow>
                    (case subscript secret ''value'' of
                       Inl e \<Rightarrow> (Inl e, st1)
                     | Inr vj \<Rightarrow>
                    (case as_str vj of
                       Inl e \<Rightarrow> (Inl e, st1)
                     | Inr val \<Rightarrow> (Inr val, set_cached_key cfg env key val st1)))))))"





record SecretEntry =
  se_key :: json
  se_value :: json
  se_version :: json
  se_comment :: json
  se_created_at :: json
  se_updated_at :: json

text \<open>The constructor call at the end of \<open>set\<close>, its arguments evaluated in order.\<close>

definition secret_entry_of :: "json \<Rightarrow> error + SecretEntry" where
  "secret_entry_of s =
     (case subscript s ''key'' of
        Inl e \<Rightarrow> Inl e
      | Inr k \<Rightarrow>
     (case subscript s ''value'' of
        Inl e \<Rightarrow> Inl e
      | Inr v \<Rightarrow>
     (case subscript s ''version'' of
        Inl e \<Rightarrow> Inl e
      | Inr n \<Rightarrow>
     (case dict_get s ''comment'' (JStr []) of
        Inl e \<Rightarrow> Inl e
      | Inr c \<Rightarrow>
     (case dict_get s ''created_at'' (JStr []) of
        Inl e \<Rightarrow> Inl e
      | Inr ca \<Rightarrow>
     (case dict_get s ''updated_at'' (JStr []) of
        Inl e \<Rightarrow> Inl e
      | Inr ua \<Rightarrow>
          Inr \<lparr>se_key = k, se_value = v, se_version = n, se_comment = c,
               se_created_at = ca, se_updated_at = ua\<rparr>))))))"

definition put_body :: "string \<Rightarrow> string \<Rightarrow> json" where
  "put_body val comment = JObj [(''value'', JStr val), (''comment'', JStr comment)]"

definition set_secret ::
  "config \<Rightarrow> world \<Rightarrow> string \<Rightarrow> string \<Rightarrow> string option \<Rightarrow> string \<Rightarrow> state
     \<Rightarrow> (error + SecretEntry) \<times> state" where
  "set_secret cfg w key val env_arg comment st =
     (let env = resolve_env cfg env_arg in
      case require_project_config cfg of
        Some e \<Rightarrow> (Inl e, st)
      | None \<Rightarrow>
          (case request cfg w ''PUT'' (key_path cfg env key) (Some (put_body val comment)) st of
             (Inl e, st1) \<Rightarrow> (Inl e, st1)
           | (Inr resp, st1) \<Rightarrow>
               (case subscript resp ''secret'' of
                  Inl e \<Rightarrow> (Inl e, st1)
                | Inr s \<Rightarrow>
                    (let st2 = set_cached_key cfg env key val st1 in
                     case secret_entry_of s of
                       Inl e \<Rightarrow> (Inl e, st2)
                     | Inr entry \<Rightarrow> (Inr entry, st2)))))"

definition delete ::
  "config \<Rightarrow> world \<Rightarrow> string \<Rightarrow> string option \<Rightarrow> state \<Rightarrow> (error + unit) \<times> state" where
  "delete cfg w key env_arg st =
     (let env = resolve_env cfg env_arg in
      case require_project_config cfg of
        Some e \<Rightarrow> (Inl e, st)
      | None \<Rightarrow>
          (case request cfg w ''DELETE'' (key_path cfg env key) None st of
             (Inl e, st1) \<Rightarrow> (Inl e, st1)
           | (Inr resp, st1) \<Rightarrow> (Inr (), st1)))"

subsection \<open>\<open>inject_into_env\<close> and \<open>healthy\<close>\<close>




record HealthStatus =
  ok :: bool
  latency_ms :: real
  cached_secrets :: nat
  hs_last_refresh :: "real option"

definition cached_count :: "state \<Rightarrow> nat" where
  "cached_count st =
     sum_list (map (\<lambda>e. length (secrets e))
       (filter (\<lambda>e. monotonic st < expires_at e) (map snd (cache st))))"

text \<open>\<open>except Exception\<close> catches whatever \<open>_request\<close> raises.\<close>

definition healthy :: "config \<Rightarrow> world \<Rightarrow> state \<Rightarrow> (error + HealthStatus) \<times> state" where
  "healthy cfg w st =
     (let start = monotonic st in
      case request cfg w ''GET'' ''/me'' None st of
        (r, st1) \<Rightarrow>
          (let probe_ok = (case r of Inr _ \<Rightarrow> True | Inl _ \<Rightarrow> False) in
           (Inr \<lparr>ok = probe_ok,
                 latency_ms = (monotonic st1 - start) * 1000,
                 cached_secrets = cached_count st1,
                 hs_last_refresh = last_refresh st1\<rparr>, st1)))"

text \<open>The state of a client just constructed: an empty cache and no refresh yet.\<close>

definition new_client :: "(string \<rightharpoonup> string) \<Rightarrow> real \<Rightarrow> real \<Rightarrow> state" where
  "new_client env t0 t1 =
     \<lparr>cache = [], last_refresh = None, environ = env, monotonic = t0, wall = t1,
      draws = 0, trace = []\<rparr>"

subsection \<open>Notions used in the statements\<close>

text \<open>\<open>same_client st st'\<close>: going from \<open>st\<close> to \<open>st'\<close> changed nothing the client owns
  (cache, last refresh) nor the process environment, and only added to the trace.\<close>

definition same_client :: "state \<Rightarrow> state \<Rightarrow> bool" where
  "same_client st st' \<longleftrightarrow>
     cache st' = cache st \<and> last_refresh st' = last_refresh st \<and> environ st' = environ st
     \<and> requests_sent st \<le> requests_sent st' \<and> (\<exists>evs. trace st' = trace st @ evs)"

text \<open>An answer that \<open>_request\<close> returns as a result: a 2xx status, with a body that
  parses as JSON unless the status is 204.\<close>

fun success_reply :: "reply \<Rightarrow> bool" where
  "success_reply (Response code body) = (is_success code \<and> (code = 204 \<or> body \<noteq> None))"
| "success_reply _ = False"

text \<open>Every cached mapping is a dict: no key occurs twice. It holds of a new client and
  every operation keeps it.\<close>

definition cache_wf :: "state \<Rightarrow> bool" where
  "cache_wf st \<longleftrightarrow> list_all (\<lambda>ce. distinct (map fst (secrets (snd ce)))) (cache st)"

subsection \<open>Example clients and services\<close>

definition demo_cfg :: config where
  "demo_cfg =
     \<lparr>token = ''zvt_demo'', base_url = ''https://api.zvault.cloud'', org_id = ''acme'',
      project_id = ''web'', default_env = ''development'', cache_ttl = 300, max_retries = 3\<rparr>"

text \<open>A service that gives the same answer to every attempt, after \<open>d\<close> seconds; the
  random generator always draws one half.\<close>

definition constant_world :: "reply \<Rightarrow> real \<Rightarrow> world" where
  "constant_world rep d = \<lparr>net = (\<lambda>i rq. (rep, d)), rnd = (\<lambda>n. 1 / 2)\<rparr>"

text \<open>A client of \<open>demo_cfg\<close> at monotonic time 100 whose cache holds secret \<open>A\<close> for
  the environment \<open>development\<close>, valid until time \<open>deadline\<close>.\<close>

definition cached_state :: "real \<Rightarrow> state" where
  "cached_state deadline =
     \<lparr>cache = [(''development'', \<lparr>secrets = [(''A'', ''1'')], expires_at = deadline\<rparr>)],
      last_refresh = Some 1000, environ = Map.empty, monotonic = 100, wall = 1100,
      draws = 0, trace = []\<rparr>"

text \<open>The body the service sends for one secret.\<close>

definition secret_body :: "string \<Rightarrow> string \<Rightarrow> json" where
  "secret_body k v =
     JObj [(''secret'', JObj [(''key'', JStr k), (''value'', JStr v), (''version'', JNum 2)])]"

text \<open>A service holding one secret, \<open>A = 1\<close>, in \<open>development\<close>: the listing takes
  two seconds, every other request one second and answers with that secret.\<close>

definition demo_service :: world where
  "demo_service =
     \<lparr>net = (\<lambda>i rq.
        if url rq = ''https://api.zvault.cloud/v1/cloud/orgs/acme/projects/web/envs/development/secrets''
        then (Response 200 (Some (JObj [(''keys'', JArr [JObj [(''key'', JStr ''A'')]])])), 2)
        else (Response 200 (Some (secret_body ''A'' ''1'')), 1)),
      rnd = (\<lambda>n. 1 / 2)\<rparr>"


section \<open>Properties of the transport\<close>

text \<open>The definitions a concrete run unfolds.\<close>

lemmas transport_defs =
  request_def send_def requests_sent_def elapse_def sleep_with_jitter_def jittered_def
  RETRY_BASE_DELAY_def is_success_def retryable_def error_message_def Let_def upt_rec

lemmas client_defs =
  resolve_env_def require_project_config_def get_cached_def get_cached_key_def
  set_cached_key_def fresh_entry_def secrets_path_def key_path_def

lemma send_frame:
  assumes "send w rq st = (rep, st1)"
  shows "cache st1 = cache st" "last_refresh st1 = last_refresh st" "environ st1 = environ st"
    "draws st1 = draws st" "trace st1 = trace st @ [Request rq]"
    "requests_sent st1 = Suc (requests_sent st)"
    "rep = fst (net w (requests_sent st) rq)"
  using assms by (auto simp: send_def elapse_def requests_sent_def split: prod.splits)

lemma sleep_frame:
  "cache (sleep_with_jitter w a st) = cache st"
  "last_refresh (sleep_with_jitter w a st) = last_refresh st"
  "environ (sleep_with_jitter w a st) = environ st"
  "draws (sleep_with_jitter w a st) = Suc (draws st)"
  "trace (sleep_with_jitter w a st) = trace st @ [Sleep (jittered w (draws st) a)]"
  "requests_sent (sleep_with_jitter w a st) = requests_sent st"
  by (simp_all add: sleep_with_jitter_def elapse_def requests_sent_def Let_def)

lemma same_client_refl: "same_client st st"
  by (simp add: same_client_def)

lemma same_client_trans: "same_client a b \<Longrightarrow> same_client b c \<Longrightarrow> same_client a c"
  by (auto simp: same_client_def)

lemma same_client_send: "send w rq st = (rep, st1) \<Longrightarrow> same_client st st1"
  by (simp add: same_client_def send_frame)

lemma same_client_sleep: "same_client st (sleep_with_jitter w a st)"
  by (simp add: same_client_def sleep_frame)

lemma attempts_frame:
  "attempts cfg w rq as lerr st = (r, st') \<Longrightarrow> same_client st st'"
proof (induction as arbitrary: lerr st)
  case Nil
  then show ?case by (auto simp: same_client_refl split: option.splits)
next
  case (Cons a as)
  obtain rep st1 where s: "send w rq st = (rep, st1)" by (cases "send w rq st")
  have 1: "same_client st st1" using s by (rule same_client_send)
  have 2: "same_client st1 (sleep_with_jitter w a st1)" by (rule same_client_sleep)
  have 3: "same_client st (sleep_with_jitter w a st1)" using 1 2 by (rule same_client_trans)
  have rec: "\<And>l s. attempts cfg w rq as l s = (r, st') \<Longrightarrow> same_client st s \<Longrightarrow> same_client st st'"
    using Cons.IH same_client_trans by blast
  show ?case
    using Cons.prems s 1 3 rec
    by (cases rep) (auto simp: Let_def split: if_splits option.splits)
qed

lemma request_frame:
  "request cfg w meth path body st = (r, st') \<Longrightarrow> same_client st st'"
  unfolding request_def by (rule attempts_frame)

text \<open>With at least one attempt allowed, the first thing a request does is send it.\<close>

lemma attempts_first:
  "attempts cfg w rq (a # as) lerr st = (r, st') \<Longrightarrow> \<exists>evs. trace st' = trace st @ Request rq # evs"
proof -
  assume p: "attempts cfg w rq (a # as) lerr st = (r, st')"
  obtain rep st1 where s: "send w rq st = (rep, st1)" by (cases "send w rq st")
  have t1: "trace st1 = trace st @ [Request rq]" using s by (rule send_frame)
  have ts: "trace (sleep_with_jitter w a st1) = trace st @ [Request rq, Sleep (jittered w (draws st1) a)]"
    by (simp add: sleep_frame t1)
  have rec: "\<And>l s. attempts cfg w rq as l s = (r, st') \<Longrightarrow> \<exists>evs. trace st' = trace s @ evs"
    using attempts_frame by (auto simp: same_client_def)
  have a: "\<And>l evs0. attempts cfg w rq as l st1 = (r, st') \<Longrightarrow> \<exists>evs. trace st' = trace st @ Request rq # evs"
    using rec t1 by fastforce
  have b: "\<And>l evs0. attempts cfg w rq as l (sleep_with_jitter w a st1) = (r, st')
      \<Longrightarrow> \<exists>evs. trace st' = trace st @ Request rq # evs"
    using rec ts by fastforce
  show ?thesis
    using p s t1 a b
    by (cases rep) (auto simp: Let_def split: if_splits option.splits)
qed

lemma request_first:
  assumes "0 \<le> max_retries cfg" and "request cfg w meth path body st = (r, st')"
  shows "\<exists>evs. trace st' = trace st @
     Request \<lparr>http_method = meth, url = base_url cfg @ ''/v1/cloud'' @ path, payload = body\<rparr> # evs"
proof -
  have "[0 ..< nat (max_retries cfg + 1)] = 0 # [1 ..< nat (max_retries cfg + 1)]"
    using assms(1) by (simp add: upt_conv_Cons)
  then show ?thesis
    using assms(2) attempts_first unfolding request_def by metis
qed

text \<open>\<open>_request\<close> returns a result exactly when the last attempt it made was answered
  successfully.\<close>

lemma attempts_result_last:
  "attempts cfg w rq as lerr st = (r, st') \<Longrightarrow>
     (\<exists>j. r = Inr j) \<longleftrightarrow>
       (requests_sent st < requests_sent st'
        \<and> success_reply (fst (net w (requests_sent st' - 1) rq)))"
proof (induction as arbitrary: lerr st)
  case Nil
  then show ?case by (auto split: option.splits)
next
  case (Cons a as)
  obtain rep st1 where s: "send w rq st = (rep, st1)" by (cases "send w rq st")
  have n1: "requests_sent st1 = Suc (requests_sent st)"
    and rep: "rep = fst (net w (requests_sent st) rq)"
    using s by (rule send_frame)+
  let ?P = "\<lambda>st'. requests_sent st < requests_sent st'
        \<and> success_reply (fst (net w (requests_sent st' - 1) rq))"
  have stop: "st' = st1 \<Longrightarrow> ?P st' \<longleftrightarrow> success_reply rep"
    by (simp add: n1 rep)
  have rec: "(\<exists>j. r = Inr j) \<longleftrightarrow> ?P st'"
    if run: "attempts cfg w rq as l s = (r, st')" and ns: "requests_sent s = Suc (requests_sent st)"
      and bad: "\<not> success_reply rep" for l s
  proof -
    have ih: "(\<exists>j. r = Inr j) \<longleftrightarrow>
       (requests_sent s < requests_sent st' \<and> success_reply (fst (net w (requests_sent st' - 1) rq)))"
      using Cons.IH[OF run] .
    have le: "requests_sent s \<le> requests_sent st'"
      using attempts_frame[OF run] by (simp add: same_client_def)
    show ?thesis
    proof (cases "requests_sent st' = Suc (requests_sent st)")
      case True
      then show ?thesis using ih ns bad rep by simp
    next
      case False
      then show ?thesis using ih ns le by auto
    qed
  qed
  have ns2: "requests_sent (sleep_with_jitter w a st1) = Suc (requests_sent st)"
    by (simp add: sleep_frame n1)
  show ?case
  proof (cases rep)
    case (Response code body)
    show ?thesis
    proof (cases "is_success code")
      case True
      then show ?thesis
        using Cons.prems s Response stop
        by (auto split: if_splits option.splits)
    next
      case False
      then have bad: "\<not> success_reply rep" using Response by simp
      show ?thesis
        using Cons.prems s Response False stop bad rec[OF _ n1 bad] rec[OF _ ns2 bad]
        by (auto simp: Let_def split: if_splits)
    qed
  next
    case (TimeoutException x)
    then have bad: "\<not> success_reply rep" by simp
    show ?thesis
      using Cons.prems s TimeoutException stop bad rec[OF _ ns2 bad]
      by (auto split: if_splits)
  next
    case (HTTPError x)
    then have bad: "\<not> success_reply rep" by simp
    show ?thesis
      using Cons.prems s HTTPError stop bad rec[OF _ ns2 bad]
      by (auto split: if_splits)
  next
    case (OtherException x)
    then show ?thesis
      using Cons.prems s stop by auto
  qed
qed

lemma request_result_last:
  "request cfg w meth path body st = (r, st') \<Longrightarrow>
     (\<exists>j. r = Inr j) \<longleftrightarrow>
       (requests_sent st < requests_sent st'
        \<and> success_reply (fst (net w (requests_sent st' - 1)
             \<lparr>http_method = meth, url = base_url cfg @ ''/v1/cloud'' @ path, payload = body\<rparr>)))"
  unfolding request_def by (rule attempts_result_last)

section \<open>The cache\<close>

lemma config_ok:
  "org_id cfg \<noteq> [] \<Longrightarrow> project_id cfg \<noteq> [] \<Longrightarrow> require_project_config cfg = None"
  by (simp add: require_project_config_def)

lemma set_cached_key_frame:
  "trace (set_cached_key cfg env k v st) = trace st"
  "monotonic (set_cached_key cfg env k v st) = monotonic st"
  "environ (set_cached_key cfg env k v st) = environ st"
  "last_refresh (set_cached_key cfg env k v st) = last_refresh st"
  "requests_sent (set_cached_key cfg env k v st) = requests_sent st"
  by (simp_all add: set_cached_key_def requests_sent_def split: option.splits)

text \<open>What \<open>_set_cached_key\<close> leaves in the cache.\<close>

lemma set_cached_key_entry:
  "map_of (cache (set_cached_key cfg env k v st)) env =
     Some (case map_of (cache st) env of
             Some ent \<Rightarrow>
               if monotonic st < expires_at ent
               then ent\<lparr>secrets := AList.update k v (secrets ent)\<rparr>
               else \<lparr>secrets = [(k, v)], expires_at = monotonic st + cache_ttl cfg\<rparr>
           | None \<Rightarrow> \<lparr>secrets = [(k, v)], expires_at = monotonic st + cache_ttl cfg\<rparr>)"
  by (simp add: set_cached_key_def fresh_entry_def update_conv' split: option.splits)

lemma set_cached_key_other:
  "e \<noteq> env \<Longrightarrow> map_of (cache (set_cached_key cfg env k v st)) e = map_of (cache st) e"
  by (simp add: set_cached_key_def update_conv' split: option.splits)

lemma get_cached_key_set:
  assumes "0 < cache_ttl cfg"
  shows "get_cached_key (set_cached_key cfg env k v st) env k = Some v"
  using assms
  by (simp add: get_cached_key_def set_cached_key_entry set_cached_key_frame update_conv'
      split: option.splits)

lemma get_hit:
  "require_project_config cfg = None \<Longrightarrow> get_cached_key st (resolve_env cfg E) k = Some v
     \<Longrightarrow> get cfg w k E st = (Inr v, st)"
  by (simp add: get_def)

lemma set_secret_success:
  assumes "set_secret cfg w k v E c st = (Inr entry, st')"
  shows "\<exists>st1. st' = set_cached_key cfg (resolve_env cfg E) k v st1"
  using assms
  by (auto simp: set_secret_def Let_def split: option.splits prod.splits sum.splits)

lemma set_secret_sends:
  assumes ok: "require_project_config cfg = None" and r: "0 \<le> max_retries cfg"
  shows "\<exists>evs. trace (snd (set_secret cfg w k v E c st)) = trace st @
     Request \<lparr>http_method = ''PUT'',
              url = base_url cfg @ ''/v1/cloud'' @ key_path cfg (resolve_env cfg E) k,
              payload = Some (put_body v c)\<rparr> # evs"
proof -
  obtain res st1 where rq:
    "request cfg w ''PUT'' (key_path cfg (resolve_env cfg E) k) (Some (put_body v c)) st = (res, st1)"
    by (cases "request cfg w ''PUT'' (key_path cfg (resolve_env cfg E) k) (Some (put_body v c)) st")
  have t: "trace (snd (set_secret cfg w k v E c st)) = trace st1"
    using ok rq
    by (auto simp: set_secret_def Let_def set_cached_key_frame split: sum.splits)
  show ?thesis
    unfolding t using request_first[OF r rq] .
qed

section \<open>Fetching\<close>

lemma fetch_each_frame:
  "fetch_each cfg w path ks acc st = (r, st') \<Longrightarrow> same_client st st'"
proof (induction ks arbitrary: acc st)
  case Nil
  then show ?case by (simp add: same_client_refl)
next
  case (Cons k ks)
  show ?case
  proof (cases "subscript k ''key''")
    case (Inl e)
    then show ?thesis using Cons.prems by (simp add: same_client_refl)
  next
    case kj: (Inr kj)
    show ?thesis
    proof (cases "as_str kj")
      case (Inl e)
      then show ?thesis using Cons.prems kj by (simp add: same_client_refl)
    next
      case name: (Inr name)
      obtain res st1 where rq:
        "request cfg w ''GET'' (path @ ''/'' @ quote name) None st = (res, st1)"
        by (cases "request cfg w ''GET'' (path @ ''/'' @ quote name) None st")
      have 1: "same_client st st1" using rq by (rule request_frame)
      have rec: "\<And>a. fetch_each cfg w path ks a st1 = (r, st') \<Longrightarrow> same_client st st'"
        using Cons.IH 1 same_client_trans by blast
      have stop: "st' = st1 \<Longrightarrow> same_client st st'" using 1 by simp
      show ?thesis
        using Cons.prems kj name rq rec stop
        by (auto split: sum.splits error.splits)
    qed
  qed
qed

lemma fetch_each_distinct:
  "fetch_each cfg w path ks acc st = (Inr fetched, st') \<Longrightarrow> distinct (map fst acc)
     \<Longrightarrow> distinct (map fst fetched)"
proof (induction ks arbitrary: acc st)
  case Nil
  then show ?case by simp
next
  case (Cons k ks)
  have rec: "\<And>a s. fetch_each cfg w path ks a s = (Inr fetched, st') \<Longrightarrow> distinct (map fst a)
      \<Longrightarrow> distinct (map fst fetched)"
    using Cons.IH by blast
  show ?case
    using Cons.prems rec
    by (auto simp: distinct_update split: sum.splits error.splits prod.splits)
qed

text \<open>A successful fetch replaces the environment's entry and stamps the refresh; it
  changes nothing else the client owns.\<close>

lemma fetch_all_success:
  assumes "fetch_all cfg w env st = (Inr fetched, st1)"
  shows "cache st1 =
           AList.update env \<lparr>secrets = fetched, expires_at = monotonic st1 + cache_ttl cfg\<rparr> (cache st)"
    and "last_refresh st1 = Some (wall st1)"
    and "environ st1 = environ st"
    and "distinct (map fst fetched)"
proof -
  obtain res sa where rq: "request cfg w ''GET'' (secrets_path cfg env) None st = (res, sa)"
    by (cases "request cfg w ''GET'' (secrets_path cfg env) None st")
  obtain keys_resp where res: "res = Inr keys_resp"
    using assms rq by (cases res) (simp_all add: fetch_all_def)
  obtain keys where keys: "dict_get keys_resp ''keys'' (JArr []) = Inr keys"
    using assms rq res by (cases "dict_get keys_resp ''keys'' (JArr [])") (simp_all add: fetch_all_def)
  obtain ks where ks: "iterate keys = Inr ks"
    using assms rq res keys by (cases "iterate keys") (simp_all add: fetch_all_def)
  obtain r2 sb where fe: "fetch_each cfg w (secrets_path cfg env) ks [] sa = (r2, sb)"
    by (cases "fetch_each cfg w (secrets_path cfg env) ks [] sa")
  have r2: "r2 = Inr fetched"
    and st1: "st1 = sb\<lparr>cache := AList.update env (fresh_entry cfg sb fetched) (cache sb),
                         last_refresh := Some (wall sb)\<rparr>"
    using assms rq res keys ks fe by (cases r2; simp add: fetch_all_def)+
  have "same_client st sa" using rq by (rule request_frame)
  moreover have "same_client sa sb" using fe by (rule fetch_each_frame)
  ultimately have sc: "same_client st sb" by (rule same_client_trans)
  show "cache st1 =
           AList.update env \<lparr>secrets = fetched, expires_at = monotonic st1 + cache_ttl cfg\<rparr> (cache st)"
    using sc by (simp add: st1 fresh_entry_def same_client_def)
  show "last_refresh st1 = Some (wall st1)" by (simp add: st1)
  show "environ st1 = environ st" using sc by (simp add: st1 same_client_def)
  show "distinct (map fst fetched)"
    using fetch_each_distinct[of cfg w _ ks "[]" sa fetched sb] fe r2 by simp
qed

lemma fetch_all_failure:
  assumes "fetch_all cfg w env st = (Inl e, st1)"
  shows "same_client st st1"
proof -
  obtain res sa where rq: "request cfg w ''GET'' (secrets_path cfg env) None st = (res, sa)"
    by (cases "request cfg w ''GET'' (secrets_path cfg env) None st")
  have 1: "same_client st sa" using rq by (rule request_frame)
  have 2: "\<And>ks r. fetch_each cfg w (secrets_path cfg env) ks [] sa = (r, st1) \<Longrightarrow> same_client st st1"
    using fetch_each_frame 1 same_client_trans by blast
  show ?thesis
    using assms rq 1 2
    by (auto simp: fetch_all_def split: sum.splits prod.splits)
qed

lemma fetch_all_sends:
  assumes r: "0 \<le> max_retries cfg"
  shows "\<exists>evs. trace (snd (fetch_all cfg w env st)) = trace st @
     Request \<lparr>http_method = ''GET'', url = base_url cfg @ ''/v1/cloud'' @ secrets_path cfg env,
              payload = None\<rparr> # evs"
proof -
  let ?rq = "Request \<lparr>http_method = ''GET'', url = base_url cfg @ ''/v1/cloud'' @ secrets_path cfg env,
              payload = None\<rparr>"
  obtain res sa where rq: "request cfg w ''GET'' (secrets_path cfg env) None st = (res, sa)"
    by (cases "request cfg w ''GET'' (secrets_path cfg env) None st")
  obtain evs where ta: "trace sa = trace st @ ?rq # evs"
    using request_first[OF r rq] by blast
  have stop: "\<exists>evs. trace sa = trace st @ ?rq # evs" using ta by blast
  have rec: "\<exists>evs. trace sb = trace st @ ?rq # evs"
    if fe: "fetch_each cfg w (secrets_path cfg env) ks [] sa = (r2, sb)" for ks r2 sb
  proof -
    obtain evs' where "trace sb = trace sa @ evs'"
      using fetch_each_frame[OF fe] by (auto simp: same_client_def)
    then show ?thesis using ta by simp
  qed
  show ?thesis
    using rq stop rec
    by (auto simp: fetch_all_def split: sum.splits prod.splits)
qed

lemma get_all_sends:
  assumes ok: "require_project_config cfg = None" and r: "0 \<le> max_retries cfg"
  shows "\<exists>evs. trace (snd (get_all cfg w E st)) = trace st @
     Request \<lparr>http_method = ''GET'',
              url = base_url cfg @ ''/v1/cloud'' @ secrets_path cfg (resolve_env cfg E),
              payload = None\<rparr> # evs"
proof -
  have "trace (snd (get_all cfg w E st)) = trace (snd (fetch_all cfg w (resolve_env cfg E) st))"
    using ok by (auto simp: get_all_def Let_def split: sum.splits prod.splits option.splits)
  then show ?thesis using fetch_all_sends[OF r] by simp
qed

lemma get_miss_sends:
  assumes ok: "require_project_config cfg = None" and r: "0 \<le> max_retries cfg"
    and miss: "get_cached_key st (resolve_env cfg E) k = None"
  shows "\<exists>evs. trace (snd (get cfg w k E st)) = trace st @
     Request \<lparr>http_method = ''GET'',
              url = base_url cfg @ ''/v1/cloud'' @ key_path cfg (resolve_env cfg E) k,
              payload = None\<rparr> # evs"
proof -
  obtain res st1 where rq:
    "request cfg w ''GET'' (key_path cfg (resolve_env cfg E) k) None st = (res, st1)"
    by (cases "request cfg w ''GET'' (key_path cfg (resolve_env cfg E) k) None st")
  have t: "trace (snd (get cfg w k E st)) = trace st1"
    using ok miss rq
    by (auto simp: get_def Let_def set_cached_key_frame split: sum.splits error.splits)
  show ?thesis unfolding t using request_first[OF r rq] .
qed

lemma quote_A: "quote ''A'' = ''A''"
  by (simp add: quote_def quote_char_def unreserved_def)

section \<open>The cache holds dicts\<close>

lemma list_all_update:
  "list_all P al \<Longrightarrow> P (k, v) \<Longrightarrow> list_all P (AList.update k v al)"
  by (induction al) auto


lemma cache_wf_same: "same_client st st' \<Longrightarrow> cache_wf st \<Longrightarrow> cache_wf st'"
  by (simp add: cache_wf_def same_client_def)

lemma cache_wf_lookup:
  "cache_wf st \<Longrightarrow> map_of (cache st) env = Some ent \<Longrightarrow> distinct (map fst (secrets ent))"
proof -
  assume wf: "cache_wf st" and m: "map_of (cache st) env = Some ent"
  from m have "(env, ent) \<in> set (cache st)" by (rule map_of_SomeD)
  with wf show ?thesis by (auto simp: cache_wf_def list_all_iff)
qed

lemma cache_wf_set_cached_key:
  assumes "cache_wf st"
  shows "cache_wf (set_cached_key cfg env k v st)"
proof (cases "map_of (cache st) env")
  case None
  then show ?thesis
    using assms by (simp add: set_cached_key_def cache_wf_def fresh_entry_def list_all_update)
next
  case (Some ent)
  have "distinct (map fst (AList.update k v (secrets ent)))"
    using cache_wf_lookup[OF assms Some] by (rule distinct_update)
  then show ?thesis
    using assms Some
    by (simp add: set_cached_key_def cache_wf_def fresh_entry_def list_all_update)
qed

lemma get_all_result:
  assumes wf: "cache_wf st" and run: "get_all cfg w E st = (Inr fetched, st1)"
  shows "distinct (map fst fetched)" and "environ st1 = environ st" and "cache_wf st1"
proof -
  let ?env = "resolve_env cfg E"
  have ok: "require_project_config cfg = None"
    using run by (cases "require_project_config cfg") (simp_all add: get_all_def)
  obtain r s where f: "fetch_all cfg w ?env st = (r, s)"
    by (cases "fetch_all cfg w ?env st")
  have "distinct (map fst fetched) \<and> environ st1 = environ st \<and> cache_wf st1"
  proof (cases r)
    case (Inr m)
    then have eq: "m = fetched" "s = st1"
      using run ok f by (simp_all add: get_all_def)
    have d: "distinct (map fst fetched)" and e: "environ st1 = environ st"
      and c: "cache st1 = AList.update ?env
                \<lparr>secrets = fetched, expires_at = monotonic st1 + cache_ttl cfg\<rparr> (cache st)"
      using fetch_all_success[of cfg w ?env st fetched st1] f Inr eq by simp_all
    have "cache_wf st1"
      using wf d unfolding cache_wf_def c by (simp add: list_all_update)
    then show ?thesis using d e by simp
  next
    case (Inl e)
    then have sc: "same_client st s"
      using f fetch_all_failure by blast
    obtain ent where fb: "get_cached s ?env = Some fetched" and s: "s = st1"
      using run ok f Inl
      by (cases "get_cached s ?env") (simp_all add: get_all_def)
    have "\<exists>ent. map_of (cache st) ?env = Some ent \<and> secrets ent = fetched"
      using fb sc by (auto simp: get_cached_def same_client_def split: option.splits if_splits)
    then have "distinct (map fst fetched)"
      using cache_wf_lookup[OF wf] by blast
    then show ?thesis
      using sc s cache_wf_same[OF sc wf] by (simp add: same_client_def)
  qed
  then show "distinct (map fst fetched)" and "environ st1 = environ st" and "cache_wf st1"
    by simp_all
qed

lemma cache_wf_get: "cache_wf st \<Longrightarrow> cache_wf (snd (get cfg w k E st))"
proof -
  assume wf: "cache_wf st"
  obtain res st1 where rq:
    "request cfg w ''GET'' (key_path cfg (resolve_env cfg E) k) None st = (res, st1)"
    by (cases "request cfg w ''GET'' (key_path cfg (resolve_env cfg E) k) None st")
  have 1: "cache_wf st1" using request_frame[OF rq] wf by (rule cache_wf_same)
  then have 2: "\<And>v. cache_wf (set_cached_key cfg (resolve_env cfg E) k v st1)"
    by (rule cache_wf_set_cached_key)
  show ?thesis
    using wf rq 1 2
    by (auto simp: get_def Let_def split: option.splits sum.splits error.splits)
qed

lemma cache_wf_set_secret: "cache_wf st \<Longrightarrow> cache_wf (snd (set_secret cfg w k v E c st))"
proof -
  assume wf: "cache_wf st"
  obtain res st1 where rq:
    "request cfg w ''PUT'' (key_path cfg (resolve_env cfg E) k) (Some (put_body v c)) st = (res, st1)"
    by (cases "request cfg w ''PUT'' (key_path cfg (resolve_env cfg E) k) (Some (put_body v c)) st")
  have 1: "cache_wf st1" using request_frame[OF rq] wf by (rule cache_wf_same)
  then have 2: "cache_wf (set_cached_key cfg (resolve_env cfg E) k v st1)"
    by (rule cache_wf_set_cached_key)
  show ?thesis
    using wf rq 1 2
    by (auto simp: set_secret_def Let_def split: option.splits sum.splits)
qed

lemma cache_wf_get_all: "cache_wf st \<Longrightarrow> cache_wf (snd (get_all cfg w E st))"
proof -
  assume wf: "cache_wf st"
  obtain r st1 where g: "get_all cfg w E st = (r, st1)" by (cases "get_all cfg w E st")
  show ?thesis
  proof (cases r)
    case (Inr fetched)
    then show ?thesis using get_all_result(3)[OF wf] g by simp
  next
    case (Inl e)
    have "same_client st st1"
      using g Inl fetch_all_failure[of cfg w "resolve_env cfg E" st]
      by (auto simp: get_all_def Let_def same_client_refl
          split: option.splits sum.splits prod.splits)
    then show ?thesis using wf g by (simp add: cache_wf_same)
  qed
qed

section \<open>Retry with backoff\<close>

lemma send_503:
  assumes "\<forall>i r. \<exists>b. fst (net w i r) = Response 503 b"
  shows "\<exists>b st1. send w rq st = (Response 503 b, st1) \<and> trace st1 = trace st @ [Request rq]
           \<and> draws st1 = draws st"
proof -
  obtain b where "fst (net w (requests_sent st) rq) = Response 503 b"
    using assms by blast
  then show ?thesis
    by (cases "net w (requests_sent st) rq") (simp add: send_def elapse_def)
qed

lemma attempts_503:
  assumes all503: "\<forall>i r. \<exists>b. fst (net w i r) = Response 503 b"
    and m: "max_retries cfg = int m"
  shows "a \<le> m \<Longrightarrow>
    \<exists>msg st'. attempts cfg w rq [a ..< Suc m] lerr st = (Inl (ZVaultAPIError 503 msg), st')
      \<and> trace st' = trace st @
            concat (map (\<lambda>k. [Request rq, Sleep (jittered w (draws st + (k - a)) k)]) [a ..< m])
            @ [Request rq]"
proof (induction "m - a" arbitrary: a lerr st)
  case 0
  then have am: "a = m" by simp
  obtain b st1 where s: "send w rq st = (Response 503 b, st1)"
      "trace st1 = trace st @ [Request rq]"
    using send_503[OF all503] by blast
  show ?case
    using s by (simp add: am m is_success_def retryable_def Let_def)
next
  case (Suc n)
  then have lt: "a < m" and n: "n = m - Suc a" and le: "Suc a \<le> m" by simp_all
  obtain b st1 where s: "send w rq st = (Response 503 b, st1)"
      "trace st1 = trace st @ [Request rq]" "draws st1 = draws st"
    using send_503[OF all503] by blast
  let ?st2 = "sleep_with_jitter w a st1"
  let ?e = "Some (ZVaultAPIError 503 (error_message 503 b))"
  from Suc.hyps(1)[OF n le, of ?e ?st2]
  obtain msg st' where r: "attempts cfg w rq [Suc a ..< Suc m] ?e ?st2 = (Inl (ZVaultAPIError 503 msg), st')"
     "trace st' = trace ?st2 @
            concat (map (\<lambda>k. [Request rq, Sleep (jittered w (draws ?st2 + (k - Suc a)) k)]) [Suc a ..< m])
            @ [Request rq]"
    by blast
  have step: "attempts cfg w rq [a ..< Suc m] lerr st = attempts cfg w rq [Suc a ..< Suc m] ?e ?st2"
    using lt s(1) by (simp add: upt_conv_Cons m is_success_def retryable_def Let_def del: upt_Suc)
  have shift: "map (\<lambda>k. [Request rq, Sleep (jittered w (draws ?st2 + (k - Suc a)) k)]) [Suc a ..< m]
      = map (\<lambda>k. [Request rq, Sleep (jittered w (draws st + (k - a)) k)]) [Suc a ..< m]"
  proof (rule map_cong[OF refl])
    fix k assume "k \<in> set [Suc a ..< m]"
    then have "Suc a \<le> k" by simp
    then have "draws ?st2 + (k - Suc a) = draws st + (k - a)"
      by (simp add: sleep_frame s(3))
    then show "[Request rq, Sleep (jittered w (draws ?st2 + (k - Suc a)) k)]
        = [Request rq, Sleep (jittered w (draws st + (k - a)) k)]"
      by simp
  qed
  have "trace st' = trace st @
            concat (map (\<lambda>k. [Request rq, Sleep (jittered w (draws st + (k - a)) k)]) [a ..< m])
            @ [Request rq]"
  proof -
    have "trace st' = trace ?st2 @
            concat (map (\<lambda>k. [Request rq, Sleep (jittered w (draws st + (k - a)) k)]) [Suc a ..< m])
            @ [Request rq]"
      using r(2) unfolding shift .
    then show ?thesis
      using lt by (simp add: sleep_frame s upt_conv_Cons)
  qed
  with r(1) step show ?case by simp
qed

lemma jittered_bounds:
  assumes "0 \<le> rnd w n" "rnd w n < 1"
  shows "RETRY_BASE_DELAY * 2 ^ a \<le> jittered w n a"
    and "jittered w n a < RETRY_BASE_DELAY * 2 ^ a * (13 / 10)"
proof -
  have pos: "0 < RETRY_BASE_DELAY * (2::real) ^ a" by (simp add: RETRY_BASE_DELAY_def)
  have j: "jittered w n a = RETRY_BASE_DELAY * 2 ^ a + rnd w n * (RETRY_BASE_DELAY * 2 ^ a) * (3 / 10)"
    by (simp add: jittered_def Let_def)
  have "0 \<le> rnd w n * (RETRY_BASE_DELAY * 2 ^ a) * (3 / 10)"
    using assms(1) pos by simp
  then show "RETRY_BASE_DELAY * 2 ^ a \<le> jittered w n a" using j by linarith
  have "rnd w n * (RETRY_BASE_DELAY * 2 ^ a) < 1 * (RETRY_BASE_DELAY * 2 ^ a)"
    using assms(2) pos by (rule mult_strict_right_mono)
  then show "jittered w n a < RETRY_BASE_DELAY * 2 ^ a * (13 / 10)" using j by linarith
qed

lemma jittered_increasing:
  assumes "\<forall>n. 0 \<le> rnd w n \<and> rnd w n < 1" and "a < b"
  shows "jittered w n a < jittered w n' b"
proof -
  have "jittered w n a < RETRY_BASE_DELAY * 2 ^ a * (13 / 10)"
    using assms(1) jittered_bounds(2) by blast
  also have "\<dots> \<le> RETRY_BASE_DELAY * 2 ^ Suc a"
    by (simp add: RETRY_BASE_DELAY_def)
  also have "\<dots> \<le> RETRY_BASE_DELAY * 2 ^ b"
    using assms(2) by (simp add: RETRY_BASE_DELAY_def Suc_leI power_increasing del: power_Suc)
  also have "\<dots> \<le> jittered w n' b"
    using assms(1) jittered_bounds(1) by blast
  finally show ?thesis .
qed

text \<open>
  Claim C3. For every request whose every attempt receives HTTP 503, the transport makes
  \<open>max_retries + 1\<close> attempts in all, sleeps before each retry for
  \<open>RETRY_BASE_DELAY * 2 ^ attempt\<close> plus a jitter of at most 30 percent of that value
  (attempts counted from 0, so the delays strictly increase), and then raises
  \<open>ZVaultAPIError\<close> with status 503. The trace added by the call is request, sleep,
  request, sleep, ..., request, with one sleep per retry. \<open>max_retries\<close> is a number
  of retries, so it is taken non-negative, and \<open>random.random()\<close> draws from \<open>[0, 1)\<close>.
\<close>

theorem request_503:
  assumes retries: "0 \<le> max_retries cfg"
    and all503: "\<forall>i r. \<exists>b. fst (net w i r) = Response 503 b"
    and unit: "\<forall>n. 0 \<le> rnd w n \<and> rnd w n < 1"
  shows "\<exists>msg st' ds.
      request cfg w meth path body st = (Inl (ZVaultAPIError 503 msg), st')
    \<and> length ds = nat (max_retries cfg)
    \<and> trace st' = trace st @
         concat (map (\<lambda>d. [Request \<lparr>http_method = meth, url = base_url cfg @ ''/v1/cloud'' @ path,
                                   payload = body\<rparr>, Sleep d]) ds)
         @ [Request \<lparr>http_method = meth, url = base_url cfg @ ''/v1/cloud'' @ path, payload = body\<rparr>]
    \<and> (\<forall>a < length ds. \<exists>jitter. ds ! a = RETRY_BASE_DELAY * 2 ^ a + jitter
           \<and> 0 \<le> jitter \<and> jitter \<le> (3 / 10) * (RETRY_BASE_DELAY * 2 ^ a))
    \<and> (\<forall>a b. a < b \<and> b < length ds \<longrightarrow> ds ! a < ds ! b)"
proof -
  define m where "m = nat (max_retries cfg)"
  define rq where "rq = \<lparr>http_method = meth, url = base_url cfg @ ''/v1/cloud'' @ path, payload = body\<rparr>"
  define ds where "ds = map (\<lambda>k. jittered w (draws st + k) k) [0 ..< m]"
  have m: "max_retries cfg = int m" using retries by (simp add: m_def)
  have up: "[0 ..< nat (max_retries cfg + 1)] = [0 ..< Suc m]"
    using retries by (simp add: m_def nat_add_distrib)
  from attempts_503[OF all503 m, of 0 rq None st]
  obtain msg st' where r: "attempts cfg w rq [0 ..< Suc m] None st = (Inl (ZVaultAPIError 503 msg), st')"
    "trace st' = trace st @
        concat (map (\<lambda>k. [Request rq, Sleep (jittered w (draws st + k) k)]) [0 ..< m]) @ [Request rq]"
    by auto
  have 1: "request cfg w meth path body st = (Inl (ZVaultAPIError 503 msg), st')"
    unfolding request_def up using r(1) by (simp add: rq_def)
  have 2: "length ds = nat (max_retries cfg)" by (simp add: ds_def m_def)
  have 3: "trace st' = trace st @ concat (map (\<lambda>d. [Request rq, Sleep d]) ds) @ [Request rq]"
    by (simp add: r(2) ds_def comp_def)
  have 4: "\<forall>a < length ds. \<exists>jitter. ds ! a = RETRY_BASE_DELAY * 2 ^ a + jitter
           \<and> 0 \<le> jitter \<and> jitter \<le> (3 / 10) * (RETRY_BASE_DELAY * 2 ^ a)"
  proof (intro allI impI)
    fix a assume "a < length ds"
    then have d: "ds ! a = jittered w (draws st + a) a" by (simp add: ds_def)
    have b: "RETRY_BASE_DELAY * 2 ^ a \<le> jittered w (draws st + a) a"
       "jittered w (draws st + a) a < RETRY_BASE_DELAY * 2 ^ a * (13 / 10)"
      using unit jittered_bounds by blast+
    show "\<exists>jitter. ds ! a = RETRY_BASE_DELAY * 2 ^ a + jitter
           \<and> 0 \<le> jitter \<and> jitter \<le> (3 / 10) * (RETRY_BASE_DELAY * 2 ^ a)"
      by (rule exI[of _ "ds ! a - RETRY_BASE_DELAY * 2 ^ a"]) (use d b in simp)
  qed
  have 5: "\<forall>a b. a < b \<and> b < length ds \<longrightarrow> ds ! a < ds ! b"
    using jittered_increasing[OF unit] by (auto simp: ds_def)
  show ?thesis
    using 1 2 3 4 5 unfolding rq_def by blast
qed

theorem request_503_witness:
  "0 \<le> max_retries demo_cfg
   \<and> (\<forall>i r. \<exists>b. fst (net (constant_world (Response 503 None) 1) i r) = Response 503 b)
   \<and> (\<forall>n. 0 \<le> rnd (constant_world (Response 503 None) 1) n
           \<and> rnd (constant_world (Response 503 None) 1) n < 1)
   \<and> (\<exists>msg st' ds.
        request demo_cfg (constant_world (Response 503 None) 1) ''GET'' ''/me'' None
          (new_client Map.empty 0 0) = (Inl (ZVaultAPIError 503 msg), st')
      \<and> length ds = 3
      \<and> trace st' =
           concat (map (\<lambda>d. [Request \<lparr>http_method = ''GET'',
                  url = ''https://api.zvault.cloud/v1/cloud/me'', payload = None\<rparr>, Sleep d]) ds)
           @ [Request \<lparr>http_method = ''GET'', url = ''https://api.zvault.cloud/v1/cloud/me'',
                payload = None\<rparr>]
      \<and> (\<forall>a < length ds. \<exists>jitter. ds ! a = RETRY_BASE_DELAY * 2 ^ a + jitter
             \<and> 0 \<le> jitter \<and> jitter \<le> (3 / 10) * (RETRY_BASE_DELAY * 2 ^ a))
      \<and> (\<forall>a b. a < b \<and> b < length ds \<longrightarrow> ds ! a < ds ! b))"
proof -
  have h1: "0 \<le> max_retries demo_cfg"
    by (simp add: demo_cfg_def)
  have h2: "\<forall>i r. \<exists>b. fst (net (constant_world (Response 503 None) 1) i r) = Response 503 b"
    by (simp add: constant_world_def)
  have h3: "\<forall>n. 0 \<le> rnd (constant_world (Response 503 None) 1) n
           \<and> rnd (constant_world (Response 503 None) 1) n < 1"
    by (simp add: constant_world_def)
  show ?thesis
    using h1 h2 h3
      request_503 [OF h1 h2 h3, of "''GET''" "''/me''" None "new_client Map.empty 0 0"]
    by (simp add: demo_cfg_def new_client_def)
qed

section \<open>Resolving the environment\<close>



section \<open>\<open>delete\<close> and the cache\<close>

text \<open>
  Claim C9. For every key and environment, \<open>delete\<close> leaves the cache mapping as it
  was, whatever the service answers: the key stays in its environment's entry, and no
  entry and no deadline of any environment changes (nor does the last-refresh stamp).
\<close>

theorem delete_keeps_cache:
  "cache (snd (delete cfg w key env st)) = cache st
   \<and> last_refresh (snd (delete cfg w key env st)) = last_refresh st"
proof (cases "require_project_config cfg")
  case (Some e)
  then show ?thesis by (simp add: delete_def)
next
  case None
  obtain r st1 where rq:
    "request cfg w ''DELETE'' (key_path cfg (resolve_env cfg env) key) None st = (r, st1)"
    by (cases "request cfg w ''DELETE'' (key_path cfg (resolve_env cfg env) key) None st")
  then have "same_client st st1" by (rule request_frame)
  then show ?thesis
    using None rq by (cases r) (simp_all add: delete_def same_client_def)
qed

theorem delete_keeps_cache_witness:
  "fst (delete demo_cfg (constant_world (Response 204 None) 1) ''A'' None (cached_state 150)) = Inr ()
   \<and> cache (snd (delete demo_cfg (constant_world (Response 204 None) 1) ''A'' None (cached_state 150)))
       = [(''development'', \<lparr>secrets = [(''A'', ''1'')], expires_at = 150\<rparr>)]"
proof -
  have "fst (delete demo_cfg (constant_world (Response 204 None) 1) ''A'' None (cached_state 150)) = Inr ()"
    by (simp add: delete_def demo_cfg_def constant_world_def cached_state_def transport_defs client_defs)
  then show ?thesis
    using delete_keeps_cache [of demo_cfg "constant_world (Response 204 None) 1" "''A''" None
        "cached_state 150"]
    by (simp add: cached_state_def)
qed

section \<open>\<open>get\<close> on a 404\<close>

text \<open>A 404 on every attempt: the transport makes all its attempts, without sleeping,
  before it raises.\<close>

lemma attempts_404:
  assumes all404: "\<forall>i r. \<exists>b. fst (net w i r) = Response 404 b"
    and m: "max_retries cfg = int m"
  shows "a \<le> m \<Longrightarrow>
    \<exists>msg st'. attempts cfg w rq [a ..< Suc m] lerr st = (Inl (ZVaultAPIError 404 msg), st')
      \<and> trace st' = trace st @ replicate (Suc m - a) (Request rq)"
proof (induction "m - a" arbitrary: a st)
  case 0
  then have am: "a = m" by simp
  obtain rep st1 where s: "send w rq st = (rep, st1)" by (cases "send w rq st")
  obtain b where rep: "rep = Response 404 b"
    using send_frame(7)[OF s] all404 by metis
  show ?case
    using s rep send_frame(5)[OF s] by (simp add: am m is_success_def Let_def)
next
  case (Suc n)
  then have lt: "a < m" and n: "n = m - Suc a" and le: "Suc a \<le> m" by simp_all
  obtain rep st1 where s: "send w rq st = (rep, st1)" by (cases "send w rq st")
  obtain b where rep: "rep = Response 404 b"
    using send_frame(7)[OF s] all404 by metis
  from Suc.hyps(1)[OF n le, of st1]
  obtain msg st' where r: "attempts cfg w rq [Suc a ..< Suc m] lerr st1 = (Inl (ZVaultAPIError 404 msg), st')"
    "trace st' = trace st1 @ replicate (Suc m - Suc a) (Request rq)"
    by blast
  have step: "attempts cfg w rq [a ..< Suc m] lerr st = attempts cfg w rq [Suc a ..< Suc m] lerr st1"
    using lt s rep by (simp add: upt_conv_Cons m is_success_def Let_def del: upt_Suc)
  have "trace st' = trace st @ replicate (Suc m - a) (Request rq)"
    using r(2) send_frame(5)[OF s] lt
    by (simp add: Suc_diff_le replicate_app_Cons_same)
  with r(1) step show ?case by simp
qed

lemma get_404_general:
  assumes ok: "require_project_config cfg = None" and retries: "0 \<le> max_retries cfg"
    and all404: "\<forall>i r. \<exists>b. fst (net w i r) = Response 404 b"
    and miss: "get_cached_key st (resolve_env cfg E) k = None"
  shows "\<exists>st'. get cfg w k E st = (Inl (ZVaultNotFoundError k (resolve_env cfg E)), st')
      \<and> requests_sent st' = requests_sent st + nat (max_retries cfg) + 1"
proof -
  define m where "m = nat (max_retries cfg)"
  have m: "max_retries cfg = int m" using retries by (simp add: m_def)
  have up: "[0 ..< nat (max_retries cfg + 1)] = [0 ..< Suc m]"
    using retries by (simp add: m_def nat_add_distrib)
  let ?rq = "\<lparr>http_method = ''GET'',
              url = base_url cfg @ ''/v1/cloud'' @ key_path cfg (resolve_env cfg E) k,
              payload = None\<rparr>"
  from attempts_404[OF all404 m, of 0 ?rq None st]
  obtain msg st' where r: "attempts cfg w ?rq [0 ..< Suc m] None st = (Inl (ZVaultAPIError 404 msg), st')"
    "trace st' = trace st @ replicate (Suc m) (Request ?rq)"
    by auto
  have rq: "request cfg w ''GET'' (key_path cfg (resolve_env cfg E) k) None st
      = (Inl (ZVaultAPIError 404 msg), st')"
    unfolding request_def up using r(1) .
  have n: "requests_sent st' = requests_sent st + nat (max_retries cfg) + 1"
    by (simp add: requests_sent_def r(2) m_def)
  show ?thesis
    using ok miss rq n by (simp add: get_def)
qed

text \<open>
  Claim C2, evaluated on the code. A client with the default \<open>max_retries = 3\<close> and an
  empty cache asks for \<open>DATABASE_URL\<close> in \<open>production\<close>; the service answers 404 to every
  attempt. \<open>get\<close> raises \<open>ZVaultNotFoundError\<close> with that key and environment, as
  claimed, but only after four requests: the \<open>ZVaultAPIError\<close> raised for the 404 inside
  the \<open>try\<close> of \<open>_request\<close> is caught by its own \<open>except ZVaultAPIError\<close> handler,
  which continues the loop until the attempts run out.
\<close>

theorem get_404_retried:
  "fst (get demo_cfg (constant_world (Response 404 None) 1) ''DATABASE_URL'' (Some ''production'')
          (new_client Map.empty 0 0))
     = Inl (ZVaultNotFoundError ''DATABASE_URL'' ''production'')
   \<and> requests_sent (snd (get demo_cfg (constant_world (Response 404 None) 1) ''DATABASE_URL''
          (Some ''production'') (new_client Map.empty 0 0))) = 4"
  by (simp add: get_def demo_cfg_def constant_world_def new_client_def transport_defs client_defs)

section \<open>\<open>get_all\<close> when the service is unreachable\<close>

text \<open>When the fetch fails, \<open>get_all\<close> serves the entry only while it is unexpired at
  the time of the failure; with no entry, or an expired one, the error is raised.\<close>

lemma get_all_fallback:
  assumes "require_project_config cfg = None"
    and "fetch_all cfg w (resolve_env cfg E) st = (Inl e, st1)"
  shows "get_all cfg w E st =
     (case map_of (cache st) (resolve_env cfg E) of
        Some ent \<Rightarrow> if monotonic st1 < expires_at ent then (Inr (secrets ent), st1)
                     else (Inl e, st1)
      | None \<Rightarrow> (Inl e, st1))"
proof -
  have "cache st1 = cache st"
    using fetch_all_failure[OF assms(2)] by (simp add: same_client_def)
  then show ?thesis
    using assms by (simp add: get_all_def get_cached_def split: option.splits)
qed

text \<open>
  Claim C1, evaluated on the code. The cache holds an entry for \<open>development\<close> whose
  deadline (50) has passed at the time of the call (100), and every attempt times out.
  \<open>get_all\<close> raises the timeout error instead of returning the cached mapping: the
  fallback reads the cache through \<open>_get_cached\<close>, which hides an expired entry.
\<close>

theorem get_all_expired_fallback:
  "map_of (cache (cached_state 50)) ''development''
     = Some \<lparr>secrets = [(''A'', ''1'')], expires_at = 50\<rparr>
   \<and> fst (get_all demo_cfg (constant_world (TimeoutException ''timed out'') 10) None
            (cached_state 50))
     = Inl (ZVaultTimeoutError ''timed out'')"
  by (simp add: get_all_def fetch_all_def demo_cfg_def constant_world_def cached_state_def
      transport_defs client_defs)

section \<open>\<open>healthy\<close>\<close>

text \<open>
  Claim C8, as the code has it. \<open>healthy\<close> never raises, whatever the transport does.
  Its \<open>ok\<close> field is true exactly when the probe (\<open>GET /me\<close> through \<open>_request\<close>, with
  its retries) made an attempt and the last one was answered with a 2xx status (with a
  body that parses as JSON unless the status is 204); in every other case it is false.
  The status also reports the number of cached secrets whose entry has not expired when
  the probe is over, summed over all environments, and the last-refresh stamp as it was
  before the probe; the probe changes neither the cache nor the stamp.
\<close>

theorem healthy_never_raises:
  "\<exists>h st'. healthy cfg w st = (Inr h, st')
     \<and> (ok h \<longleftrightarrow>
          requests_sent st < requests_sent st'
          \<and> success_reply (fst (net w (requests_sent st' - 1)
               \<lparr>http_method = ''GET'', url = base_url cfg @ ''/v1/cloud'' @ ''/me'',
                payload = None\<rparr>)))
     \<and> cached_secrets h =
          sum_list (map (\<lambda>e. length (secrets e))
            (filter (\<lambda>e. monotonic st' < expires_at e) (map snd (cache st))))
     \<and> hs_last_refresh h = last_refresh st
     \<and> cache st' = cache st"
proof -
  obtain r st1 where rq: "request cfg w ''GET'' ''/me'' None st = (r, st1)"
    by (cases "request cfg w ''GET'' ''/me'' None st")
  have fr: "cache st1 = cache st" "last_refresh st1 = last_refresh st"
    using request_frame[OF rq] by (simp_all add: same_client_def)
  have okr: "(case r of Inr _ \<Rightarrow> True | Inl _ \<Rightarrow> False) \<longleftrightarrow> (\<exists>j. r = Inr j)"
    by (cases r) simp_all
  show ?thesis
    using rq fr okr request_result_last[OF rq]
    by (simp add: healthy_def cached_count_def)
qed

theorem healthy_never_raises_witness:
  "fst (healthy demo_cfg (constant_world (Response 503 None) 1) (cached_state 150))
     = Inr \<lparr>ok = False, latency_ms = 8025, cached_secrets = 1, hs_last_refresh = Some 1000\<rparr>"
  using healthy_never_raises [of demo_cfg "constant_world (Response 503 None) 1" "cached_state 150"]
  by (simp add: healthy_def cached_count_def demo_cfg_def constant_world_def cached_state_def
      transport_defs)

text \<open>The claim as stated says \<open>ok\<close> is false whenever the probe returns a status other
  than 200. A 204 answer is a success of \<open>_request\<close>, and \<open>ok\<close> is true.\<close>

theorem healthy_ok_on_204:
  "fst (healthy demo_cfg (constant_world (Response 204 None) 1) (cached_state 150))
     = Inr \<lparr>ok = True, latency_ms = 1000, cached_secrets = 1, hs_last_refresh = Some 1000\<rparr>"
  by (simp add: healthy_def cached_count_def demo_cfg_def constant_world_def cached_state_def
      transport_defs)

section \<open>\<open>set\<close> followed by \<open>get\<close>\<close>

text \<open>
  Claim C6. For every key, value and environment, and whatever the cache holds, \<open>set\<close>
  first sends the PUT request for the key (a write is never served from or suppressed by
  the cache); when \<open>set\<close> succeeds, the cached value of the key in that environment is
  the value written, and a \<open>get\<close> that follows immediately returns it from the cache and
  leaves the state, hence the trace of requests, as it was. The client is configured
  (org and project ids present), \<open>max_retries\<close> is not negative and the TTL is positive.
\<close>

theorem set_then_get:
  assumes org: "org_id cfg \<noteq> ''''" and proj: "project_id cfg \<noteq> ''''"
    and retries: "0 \<le> max_retries cfg" and ttl: "0 < cache_ttl cfg"
  shows "(\<exists>evs. trace (snd (set_secret cfg w k v E c st)) = trace st @
            Request \<lparr>http_method = ''PUT'',
                     url = base_url cfg @ ''/v1/cloud'' @ key_path cfg (resolve_env cfg E) k,
                     payload = Some (put_body v c)\<rparr> # evs)
       \<and> (\<forall>entry st'. set_secret cfg w k v E c st = (Inr entry, st') \<longrightarrow>
             get_cached_key st' (resolve_env cfg E) k = Some v
           \<and> get cfg w k E st' = (Inr v, st'))"
proof -
  have ok: "require_project_config cfg = None" using org proj by (rule config_ok)
  have hit: "get_cached_key st' (resolve_env cfg E) k = Some v \<and> get cfg w k E st' = (Inr v, st')"
    if s: "set_secret cfg w k v E c st = (Inr entry, st')" for entry st'
  proof -
    obtain st1 where "st' = set_cached_key cfg (resolve_env cfg E) k v st1"
      using set_secret_success[OF s] by blast
    then have c: "get_cached_key st' (resolve_env cfg E) k = Some v"
      using ttl by (simp add: get_cached_key_set)
    with ok show ?thesis by (simp add: get_hit)
  qed
  show ?thesis
    using set_secret_sends[OF ok retries] hit by blast
qed

theorem set_then_get_witness:
  "org_id demo_cfg \<noteq> '''' \<and> project_id demo_cfg \<noteq> '''' \<and> 0 \<le> max_retries demo_cfg
   \<and> 0 < cache_ttl demo_cfg
   \<and> get_cached_key (cached_state 150) ''development'' ''A'' = Some ''1''
   \<and> fst (set_secret demo_cfg (constant_world (Response 200 (Some (secret_body ''A'' ''2''))) 1)
          ''A'' ''2'' None '''' (cached_state 150))
       = Inr \<lparr>se_key = JStr ''A'', se_value = JStr ''2'', se_version = JNum 2,
              se_comment = JStr '''', se_created_at = JStr '''', se_updated_at = JStr ''''\<rparr>
   \<and> requests_sent (snd (set_secret demo_cfg
          (constant_world (Response 200 (Some (secret_body ''A'' ''2''))) 1)
          ''A'' ''2'' None '''' (cached_state 150))) = 1
   \<and> get demo_cfg (constant_world (Response 200 (Some (secret_body ''A'' ''2''))) 1) ''A'' None
        (snd (set_secret demo_cfg (constant_world (Response 200 (Some (secret_body ''A'' ''2''))) 1)
          ''A'' ''2'' None '''' (cached_state 150)))
       = (Inr ''2'',
          snd (set_secret demo_cfg (constant_world (Response 200 (Some (secret_body ''A'' ''2''))) 1)
            ''A'' ''2'' None '''' (cached_state 150)))"
proof -
  let ?w = "constant_world (Response 200 (Some (secret_body ''A'' ''2''))) 1"
  let ?run = "set_secret demo_cfg ?w ''A'' ''2'' None '''' (cached_state 150)"
  have h1: "org_id demo_cfg \<noteq> ''''" and h2: "project_id demo_cfg \<noteq> ''''"
    and h3: "0 \<le> max_retries demo_cfg" and h4: "0 < cache_ttl demo_cfg"
    by (simp_all add: demo_cfg_def)
  have c: "get_cached_key (cached_state 150) ''development'' ''A'' = Some ''1''"
    by (simp add: get_cached_key_def cached_state_def)
  have r: "fst ?run
       = Inr \<lparr>se_key = JStr ''A'', se_value = JStr ''2'', se_version = JNum 2,
              se_comment = JStr '''', se_created_at = JStr '''', se_updated_at = JStr ''''\<rparr>"
    by (simp add: set_secret_def secret_entry_of_def secret_body_def put_body_def demo_cfg_def
        constant_world_def cached_state_def transport_defs client_defs)
  have n: "requests_sent (snd ?run) = 1"
    by (simp add: set_secret_def secret_entry_of_def secret_body_def put_body_def demo_cfg_def
        constant_world_def cached_state_def transport_defs client_defs)
  have e: "?run = (Inr \<lparr>se_key = JStr ''A'', se_value = JStr ''2'', se_version = JNum 2,
              se_comment = JStr '''', se_created_at = JStr '''', se_updated_at = JStr ''''\<rparr>, snd ?run)"
    using r by (simp add: prod_eq_iff)
  have g: "get demo_cfg ?w ''A'' None (snd ?run) = (Inr ''2'', snd ?run)"
    using set_then_get [OF h1 h2 h3 h4, of ?w "''A''" "''2''" None "''''" "cached_state 150"] e
    by blast
  show ?thesis using h1 h2 h3 h4 c r n g by simp
qed

section \<open>\<open>get\<close> on a cache miss\<close>

text \<open>
  Claim C5, as the code has it. When \<open>get\<close> misses the cache and the single request for
  the key succeeds with a secret whose value is \<open>v\<close>, then \<open>v\<close> is returned, and
  \<open>_set_cached_key\<close> stores it as follows, at the time \<open>t\<close> of the clock when the answer
  has arrived. If the environment has an entry that is unexpired at \<open>t\<close>, the value is
  added to that entry: its other keys stay and its deadline stays as it was (it is not
  refreshed). Otherwise (no entry, or an expired one) the entry becomes one that holds
  only this key, with the deadline \<open>t\<close> plus the configured TTL. The entries of the other
  environments do not change. With a positive TTL the value is then readable from the
  cache.
\<close>

theorem get_miss_caches_value:
  assumes org: "org_id cfg \<noteq> ''''" and proj: "project_id cfg \<noteq> ''''"
    and miss: "get_cached_key st (resolve_env cfg E) k = None"
    and fetched: "request cfg w ''GET'' (key_path cfg (resolve_env cfg E) k) None st = (Inr resp, st1)"
    and secret: "subscript resp ''secret'' = Inr s"
    and val: "subscript s ''value'' = Inr (JStr v)"
  shows "\<exists>st2. get cfg w k E st = (Inr v, st2)
      \<and> get_cached_key st2 (resolve_env cfg E) k = (if 0 < cache_ttl cfg \<or> get_cached st1 (resolve_env cfg E) \<noteq> None then Some v else None)
      \<and> (\<forall>ent. map_of (cache st) (resolve_env cfg E) = Some ent \<and> monotonic st1 < expires_at ent \<longrightarrow>
             map_of (cache st2) (resolve_env cfg E)
               = Some (ent\<lparr>secrets := AList.update k v (secrets ent)\<rparr>))
      \<and> (map_of (cache st) (resolve_env cfg E) = None
           \<or> (\<exists>ent. map_of (cache st) (resolve_env cfg E) = Some ent \<and> expires_at ent \<le> monotonic st1)
          \<longrightarrow> map_of (cache st2) (resolve_env cfg E)
               = Some \<lparr>secrets = [(k, v)], expires_at = monotonic st1 + cache_ttl cfg\<rparr>)
      \<and> (\<forall>e. e \<noteq> resolve_env cfg E \<longrightarrow> map_of (cache st2) e = map_of (cache st) e)"
proof -
  let ?env = "resolve_env cfg E"
  let ?st2 = "set_cached_key cfg ?env k v st1"
  have ok: "require_project_config cfg = None" using org proj by (rule config_ok)
  have c1: "cache st1 = cache st"
    using request_frame[OF fetched] by (simp add: same_client_def)
  have g: "get cfg w k E st = (Inr v, ?st2)"
    using ok miss fetched secret val by (simp add: get_def)
  have e: "map_of (cache ?st2) ?env =
     Some (case map_of (cache st) ?env of
             Some ent \<Rightarrow>
               if monotonic st1 < expires_at ent
               then ent\<lparr>secrets := AList.update k v (secrets ent)\<rparr>
               else \<lparr>secrets = [(k, v)], expires_at = monotonic st1 + cache_ttl cfg\<rparr>
           | None \<Rightarrow> \<lparr>secrets = [(k, v)], expires_at = monotonic st1 + cache_ttl cfg\<rparr>)"
    using set_cached_key_entry[of cfg ?env k v st1] by (simp add: c1)
  have a: "get_cached_key ?st2 ?env k = (if 0 < cache_ttl cfg \<or> get_cached st1 ?env \<noteq> None then Some v else None)"
    by (simp add: get_cached_key_def get_cached_def e c1 set_cached_key_frame update_conv'
        split: option.splits)
  have b: "\<forall>ent. map_of (cache st) ?env = Some ent \<and> monotonic st1 < expires_at ent \<longrightarrow>
             map_of (cache ?st2) ?env = Some (ent\<lparr>secrets := AList.update k v (secrets ent)\<rparr>)"
    by (simp add: e)
  have c: "map_of (cache st) ?env = None
           \<or> (\<exists>ent. map_of (cache st) ?env = Some ent \<and> expires_at ent \<le> monotonic st1)
          \<longrightarrow> map_of (cache ?st2) ?env
               = Some \<lparr>secrets = [(k, v)], expires_at = monotonic st1 + cache_ttl cfg\<rparr>"
    by (auto simp: e)
  have d: "\<forall>e. e \<noteq> ?env \<longrightarrow> map_of (cache ?st2) e = map_of (cache st) e"
    by (simp add: set_cached_key_other c1)
  show ?thesis using g a b c d by blast
qed

theorem get_miss_caches_value_witness:
  "org_id demo_cfg \<noteq> '''' \<and> project_id demo_cfg \<noteq> ''''
   \<and> get_cached_key (cached_state 150) (resolve_env demo_cfg None) ''B'' = None
   \<and> fst (request demo_cfg (constant_world (Response 200 (Some (secret_body ''B'' ''2''))) 1) ''GET''
        (key_path demo_cfg (resolve_env demo_cfg None) ''B'') None (cached_state 150))
       = Inr (secret_body ''B'' ''2'')
   \<and> subscript (secret_body ''B'' ''2'') ''secret''
       = Inr (JObj [(''key'', JStr ''B''), (''value'', JStr ''2''), (''version'', JNum 2)])
   \<and> subscript (JObj [(''key'', JStr ''B''), (''value'', JStr ''2''), (''version'', JNum 2)]) ''value''
       = Inr (JStr ''2'')
   \<and> (\<exists>st2. get demo_cfg (constant_world (Response 200 (Some (secret_body ''B'' ''2''))) 1) ''B'' None
               (cached_state 150) = (Inr ''2'', st2)
          \<and> get_cached_key st2 ''development'' ''B'' = Some ''2'')"
proof -
  let ?w = "constant_world (Response 200 (Some (secret_body ''B'' ''2''))) 1"
  let ?rq = "request demo_cfg ?w ''GET'' (key_path demo_cfg (resolve_env demo_cfg None) ''B'') None
               (cached_state 150)"
  let ?s = "JObj [(''key'', JStr ''B''), (''value'', JStr ''2''), (''version'', JNum 2)]"
  have h1: "org_id demo_cfg \<noteq> ''''" and h2: "project_id demo_cfg \<noteq> ''''"
    and ttl: "0 < cache_ttl demo_cfg" and env: "resolve_env demo_cfg None = ''development''"
    by (simp_all add: demo_cfg_def resolve_env_def)
  have h3: "get_cached_key (cached_state 150) (resolve_env demo_cfg None) ''B'' = None"
    by (simp add: env get_cached_key_def cached_state_def)
  have r: "fst ?rq = Inr (secret_body ''B'' ''2'')"
    by (simp add: demo_cfg_def constant_world_def cached_state_def transport_defs)
  then have h4: "?rq = (Inr (secret_body ''B'' ''2''), snd ?rq)"
    by (simp add: prod_eq_iff)
  have h5: "subscript (secret_body ''B'' ''2'') ''secret'' = Inr ?s"
    by (simp add: secret_body_def)
  have h6: "subscript ?s ''value'' = Inr (JStr ''2'')"
    by simp
  have "\<exists>st2. get demo_cfg ?w ''B'' None (cached_state 150) = (Inr ''2'', st2)
          \<and> get_cached_key st2 ''development'' ''B'' = Some ''2''"
    using get_miss_caches_value [OF h1 h2 h3 h4 h5 h6] ttl env by auto
  then show ?thesis using h1 h2 h3 r h5 h6 by blast
qed

text \<open>The claim as stated says the entry's deadline is fresh after the miss. Here the
  environment has an unexpired entry (deadline 150) without the key \<open>B\<close>; after \<open>get\<close>
  has fetched \<open>B\<close> the entry holds both keys and its deadline is still 150, neither the
  call time plus the TTL (400) nor the time of the store plus the TTL (401).\<close>

theorem get_miss_deadline_kept:
  "get_cached_key (cached_state 150) ''development'' ''B'' = None
   \<and> fst (get demo_cfg (constant_world (Response 200 (Some (secret_body ''B'' ''2''))) 1) ''B'' None
          (cached_state 150)) = Inr ''2''
   \<and> map_of (cache (snd (get demo_cfg
          (constant_world (Response 200 (Some (secret_body ''B'' ''2''))) 1) ''B'' None
          (cached_state 150)))) ''development''
       = Some \<lparr>secrets = [(''A'', ''1''), (''B'', ''2'')], expires_at = 150\<rparr>
   \<and> monotonic (cached_state 150) + cache_ttl demo_cfg = 400
   \<and> monotonic (snd (get demo_cfg
          (constant_world (Response 200 (Some (secret_body ''B'' ''2''))) 1) ''B'' None
          (cached_state 150))) + cache_ttl demo_cfg = 401"
  by (simp add: get_def secret_body_def demo_cfg_def constant_world_def cached_state_def
      transport_defs client_defs)

section \<open>\<open>get_all\<close> and the reads that follow\<close>

text \<open>
  Claim C4, as the code has it. When the fetch of \<open>get_all\<close> succeeds (the body of its
  \<open>try\<close> returns), \<open>get_all\<close> returns the fetched mapping, the cache entry of the
  environment is replaced wholesale by that mapping, with the deadline equal to the
  monotonic time at which the fetch has finished plus the configured TTL, and the
  last-refresh stamp is set. From then on, in any state with that cache: a \<open>get\<close> of a
  key of the mapping before the deadline returns the cached value and leaves the state
  (hence the trace) as it is; at or after the deadline a \<open>get\<close> first sends the request
  for the key. \<open>get_all\<close> itself never reads the cache before fetching: in every state
  it first sends the listing request. The client is configured and \<open>max_retries\<close> is
  not negative.
\<close>

theorem get_all_then_cached_reads:
  assumes org: "org_id cfg \<noteq> ''''" and proj: "project_id cfg \<noteq> ''''"
    and retries: "0 \<le> max_retries cfg"
    and fetch: "fetch_all cfg w (resolve_env cfg E) st = (Inr fetched, st1)"
  shows "get_all cfg w E st = (Inr fetched, st1)
     \<and> cache st1 =
         AList.update (resolve_env cfg E)
           \<lparr>secrets = fetched, expires_at = monotonic st1 + cache_ttl cfg\<rparr> (cache st)
     \<and> last_refresh st1 = Some (wall st1)
     \<and> (\<forall>st2 k v. cache st2 = cache st1 \<and> monotonic st2 < monotonic st1 + cache_ttl cfg
            \<and> map_of fetched k = Some v
          \<longrightarrow> get cfg w k E st2 = (Inr v, st2))
     \<and> (\<forall>st2 k. cache st2 = cache st1 \<and> monotonic st1 + cache_ttl cfg \<le> monotonic st2
          \<longrightarrow> (\<exists>evs. trace (snd (get cfg w k E st2)) = trace st2 @
                 Request \<lparr>http_method = ''GET'',
                          url = base_url cfg @ ''/v1/cloud'' @ key_path cfg (resolve_env cfg E) k,
                          payload = None\<rparr> # evs))
     \<and> (\<forall>st2. \<exists>evs. trace (snd (get_all cfg w E st2)) = trace st2 @
                 Request \<lparr>http_method = ''GET'',
                          url = base_url cfg @ ''/v1/cloud'' @ secrets_path cfg (resolve_env cfg E),
                          payload = None\<rparr> # evs)"
proof -
  let ?env = "resolve_env cfg E"
  let ?ent = "\<lparr>secrets = fetched, expires_at = monotonic st1 + cache_ttl cfg\<rparr>"
  have ok: "require_project_config cfg = None" using org proj by (rule config_ok)
  have 1: "get_all cfg w E st = (Inr fetched, st1)"
    using ok fetch by (simp add: get_all_def)
  have 2: "cache st1 = AList.update ?env ?ent (cache st)"
    and 3: "last_refresh st1 = Some (wall st1)"
    using fetch_all_success[OF fetch] by simp_all
  have ent: "map_of (cache st1) ?env = Some ?ent"
    by (simp add: 2 update_conv')
  have 4: "get cfg w k E st2 = (Inr v, st2)"
    if "cache st2 = cache st1" "monotonic st2 < monotonic st1 + cache_ttl cfg"
      "map_of fetched k = Some v" for st2 k v
  proof -
    have "get_cached_key st2 ?env k = Some v"
      using that ent by (simp add: get_cached_key_def)
    with ok show ?thesis by (rule get_hit)
  qed
  have 5: "\<exists>evs. trace (snd (get cfg w k E st2)) = trace st2 @
                 Request \<lparr>http_method = ''GET'',
                          url = base_url cfg @ ''/v1/cloud'' @ key_path cfg ?env k,
                          payload = None\<rparr> # evs"
    if "cache st2 = cache st1" "monotonic st1 + cache_ttl cfg \<le> monotonic st2" for st2 k
  proof -
    have "get_cached_key st2 ?env k = None"
      using that ent by (simp add: get_cached_key_def)
    with ok retries show ?thesis by (rule get_miss_sends)
  qed
  have 6: "\<exists>evs. trace (snd (get_all cfg w E st2)) = trace st2 @
                 Request \<lparr>http_method = ''GET'',
                          url = base_url cfg @ ''/v1/cloud'' @ secrets_path cfg ?env,
                          payload = None\<rparr> # evs" for st2
    using ok retries by (rule get_all_sends)
  show ?thesis
    using 1 2 3 4 5 6 by blast
qed

theorem get_all_then_cached_reads_witness:
  "org_id demo_cfg \<noteq> '''' \<and> project_id demo_cfg \<noteq> '''' \<and> 0 \<le> max_retries demo_cfg
   \<and> fst (fetch_all demo_cfg demo_service (resolve_env demo_cfg None) (new_client Map.empty 100 0))
       = Inr [(''A'', ''1'')]
   \<and> fst (get_all demo_cfg demo_service None (new_client Map.empty 100 0)) = Inr [(''A'', ''1'')]
   \<and> get demo_cfg demo_service ''A'' None
        (snd (get_all demo_cfg demo_service None (new_client Map.empty 100 0)))
       = (Inr ''1'', snd (get_all demo_cfg demo_service None (new_client Map.empty 100 0)))"
proof -
  let ?st0 = "new_client Map.empty 100 0"
  let ?f = "fetch_all demo_cfg demo_service (resolve_env demo_cfg None) ?st0"
  have h1: "org_id demo_cfg \<noteq> ''''" and h2: "project_id demo_cfg \<noteq> ''''"
    and h3: "0 \<le> max_retries demo_cfg" and ttl: "0 < cache_ttl demo_cfg"
    by (simp_all add: demo_cfg_def)
  have f: "fst ?f = Inr [(''A'', ''1'')]"
    by (simp add: fetch_all_def quote_A secret_body_def demo_cfg_def demo_service_def
        new_client_def transport_defs client_defs)
  then have h4: "?f = (Inr [(''A'', ''1'')], snd ?f)"
    by (simp add: prod_eq_iff)
  note t = get_all_then_cached_reads [OF h1 h2 h3 h4]
  have g: "get_all demo_cfg demo_service None ?st0 = (Inr [(''A'', ''1'')], snd ?f)"
    using t by blast
  have "get demo_cfg demo_service ''A'' None (snd ?f) = (Inr ''1'', snd ?f)"
    using t ttl by simp
  then show ?thesis using h1 h2 h3 f g by simp
qed

text \<open>The claim as stated fails twice on this run: the call starts at time 100 with a
  TTL of 300, the two requests take three seconds, and the deadline stored is 403, not
  400; and a second \<open>get_all\<close> at time 103, long before the deadline, sends two more
  requests.\<close>

theorem get_all_not_served_from_cache:
  "fst (get_all demo_cfg demo_service None (new_client Map.empty 100 0)) = Inr [(''A'', ''1'')]
   \<and> map_of (cache (snd (get_all demo_cfg demo_service None (new_client Map.empty 100 0))))
        ''development'' = Some \<lparr>secrets = [(''A'', ''1'')], expires_at = 403\<rparr>
   \<and> monotonic (new_client Map.empty 100 0) + cache_ttl demo_cfg = 400
   \<and> monotonic (snd (get_all demo_cfg demo_service None (new_client Map.empty 100 0))) = 103
   \<and> requests_sent (snd (get_all demo_cfg demo_service None (new_client Map.empty 100 0))) = 2
   \<and> requests_sent (snd (get_all demo_cfg demo_service None
        (snd (get_all demo_cfg demo_service None (new_client Map.empty 100 0))))) = 4"
  by (simp add: get_all_def fetch_all_def quote_A secret_body_def demo_cfg_def demo_service_def
      new_client_def transport_defs client_defs)

section \<open>\<open>inject_into_env\<close>\<close>








end
